theory Spec2Isabelle
  imports Main
begin

section \<open>JavaScript primitives used by the testimonial slider\<close>

text \<open>
  Indices and coordinates are integer-valued JavaScript Numbers, that is IEEE doubles; they
  are modelled as \<open>int\<close>. The operator \<^verbatim>\<open>%\<close> is the truncating remainder: its result has
  the sign of the dividend, and it is exact on doubles. (For a zero divisor JavaScript
  yields NaN; \<open>goTo\<close> only exists once \<open>initSlider\<close> has passed its guard, so its divisor
  \<open>total\<close> is at least 1.)
\<close>

definition js_rem :: "int \<Rightarrow> int \<Rightarrow> int" where
  "js_rem a b = sgn a * (\<bar>a\<bar> mod \<bar>b\<bar>)"

text \<open>
  The sum of two doubles is the exact sum rounded to the nearest double, a tie going to the
  even significand. On integers: up to \<open>2 ^ 53\<close> in magnitude every integer is a double;
  beyond, the 53 leading bits are kept and the rest is rounded. (No sum of this program
  reaches the magnitude at which a double overflows.)
\<close>

function bit_length :: "int \<Rightarrow> nat" where
  "bit_length n = (if n \<le> 0 then 0 else Suc (bit_length (n div 2)))"
  by pat_completeness auto
termination
  by (relation "measure nat") auto

declare bit_length.simps [simp del]

definition round_double :: "int \<Rightarrow> int" where
  "round_double n =
     (let m = \<bar>n\<bar> in
      if m \<le> 2 ^ 53 then n
      else
        let e = bit_length m - 53;
            q = m div 2 ^ e;
            r = m mod 2 ^ e;
            h = 2 ^ (e - 1);
            q' = (if h < r \<or> (r = h \<and> odd q) then q + 1 else q)
        in sgn n * (q' * 2 ^ e))"

text \<open>
  \<^verbatim>\<open>index + total\<close>, where \<open>total\<close> is the length of an array. An array has fewer than
  \<open>2 ^ 32\<close> elements; for a longer list, which no array is, the sum is left as it is.
\<close>

definition add_length :: "int \<Rightarrow> int \<Rightarrow> int" where
  "add_length index len = (if len < 2 ^ 32 then round_double (index + len) else index + len)"

text \<open>Number-to-string conversion inside a template literal, for integers.\<close>

definition digit_char :: "nat \<Rightarrow> char" where
  "digit_char n = ''0123456789'' ! n"

fun string_of_nat :: "nat \<Rightarrow> string" where
  "string_of_nat n =
     (if n < 10 then [digit_char n]
      else string_of_nat (n div 10) @ [digit_char (n mod 10)])"

declare string_of_nat.simps [simp del]

definition string_of_int :: "int \<Rightarrow> string" where
  "string_of_int i = (if i < 0 then ''-'' @ string_of_nat (nat (- i)) else string_of_nat (nat i))"

text \<open>\<^verbatim>\<open>setAttribute\<close> stores the string form of a boolean argument.\<close>

definition string_of_bool :: "bool \<Rightarrow> string" where
  "string_of_bool b = (if b then ''true'' else ''false'')"

text \<open>
  A Number as \<^verbatim>\<open>parseInt\<close> returns one: NaN, an integer, or an infinity (for a run of
  digits beyond the range of the doubles). \<open>positive\<close> is the test \<^verbatim>\<open>> 0\<close>.
\<close>

datatype number = NaN | Finite int | Infinity | Minus_Infinity

fun positive :: "number \<Rightarrow> bool" where
  "positive NaN = False"
| "positive (Finite n) = (0 < n)"
| "positive Infinity = True"
| "positive Minus_Infinity = False"

text \<open>
  The setter of \<^verbatim>\<open>style.transform\<close>. The string is parsed as CSS: a string that is no valid
  value is ignored and the property keeps the value it has; a valid one is stored, and
  is read back in its serialised form, in which a number has a minus sign only if it is
  negative. The only strings that reach the setter are those of the template
  \<^verbatim>\<open>translateX(-${current * 100}%)\<close>, so \<open>css_translateX\<close> recognises the values
  \<^verbatim>\<open>translateX(<percentage>)\<close> with an integer percentage (an optional sign, then digits):
  \<^verbatim>\<open>translateX(-100%)\<close> is one and \<^verbatim>\<open>translateX(--100%)\<close> is none.
\<close>

definition is_digit :: "char \<Rightarrow> bool" where
  "is_digit c = (c \<in> set ''0123456789'')"

definition digit_val :: "char \<Rightarrow> nat" where
  "digit_val c = length (takeWhile (\<lambda>d. d \<noteq> c) ''0123456789'')"

fun strip_prefix :: "string \<Rightarrow> string \<Rightarrow> string option" where
  "strip_prefix [] str = Some str"
| "strip_prefix (p # ps) [] = None"
| "strip_prefix (p # ps) (c # cs) = (if p = c then strip_prefix ps cs else None)"

definition css_translateX :: "string \<Rightarrow> int option" where
  "css_translateX str =
     (case strip_prefix ''translateX('' str of
        None \<Rightarrow> None
      | Some s1 \<Rightarrow>
          let neg = (s1 \<noteq> [] \<and> hd s1 = CHR ''-'');
              s2 = (if s1 \<noteq> [] \<and> (hd s1 = CHR ''-'' \<or> hd s1 = CHR ''+'') then tl s1 else s1);
              ds = takeWhile is_digit s2
          in if ds \<noteq> [] \<and> dropWhile is_digit s2 = ''%)''
             then Some ((if neg then - 1 else 1) * int (foldl (\<lambda>a c. 10 * a + digit_val c) 0 ds))
             else None)"

definition set_transform :: "string \<Rightarrow> string \<Rightarrow> string" where
  "set_transform str old =
     (case css_translateX str of
        None \<Rightarrow> old
      | Some p \<Rightarrow> ''translateX('' @ string_of_int p @ ''%)'')"

text \<open>
  \<^verbatim>\<open>classList.toggle(token, force)\<close>: with \<open>force\<close> true the token is added unless it is
  there already, with \<open>force\<close> false it is removed.
\<close>

definition toggle :: "string \<Rightarrow> bool \<Rightarrow> string list \<Rightarrow> string list" where
  "toggle tok force cl =
     (if force then (if tok \<in> set cl then cl else cl @ [tok]) else removeAll tok cl)"

section \<open>The data model\<close>

text \<open>A slide element: its \<^verbatim>\<open>aria-hidden\<close> attribute (if set) and its \<^verbatim>\<open>inert\<close> property.\<close>

record slide =
  aria_hidden :: "string option"
  inert :: bool

text \<open>
  An element matching \<^verbatim>\<open>.slider__dot\<close>: its class tokens and its \<^verbatim>\<open>aria-label\<close>. A dot
  of a running carousel also has its click listener: \<open>Some i\<close> is the listener
  \<^verbatim>\<open>() => goTo(i)\<close>, \<open>None\<close> is no listener.
\<close>

record elem =
  classList :: "string list"
  aria_label :: "string option"

record dot = elem +
  click :: "nat option"

text \<open>
  The root element \<^verbatim>\<open>.slider\<close> as the page's markup gives it to \<open>initSlider\<close>, seen through
  the five queries and the one data attribute that \<open>initSlider\<close> reads (\<^verbatim>\<open>parseInt\<close> is the
  language's own and is not modelled again):
  \<^item> \<open>el_track\<close>: the \<^verbatim>\<open>.slider__track\<close> element, as the value its \<^verbatim>\<open>style.transform\<close> reads;
  \<^item> \<open>el_slides\<close>: the \<^verbatim>\<open>.slider__slide\<close> elements in document order;
  \<^item> \<open>el_prevBtn\<close>, \<open>el_nextBtn\<close>: whether the two buttons exist;
  \<^item> \<open>el_dots\<close>: the \<^verbatim>\<open>.slider__dot\<close> elements the markup already holds, in document order;
  \<^item> \<open>el_dotsContainer\<close>: \<open>Some p\<close> when \<^verbatim>\<open>.slider__dots\<close> exists, where \<open>p\<close> of the
    markup's dots come before the place at which \<^verbatim>\<open>appendChild\<close> inserts;
  \<^item> \<open>el_interval\<close>: the Number that \<^verbatim>\<open>parseInt(slider.dataset.interval || 0, 10)\<close> is for
    this element (0 when the attribute \<^verbatim>\<open>data-interval\<close> is absent or empty).
\<close>

record slider_el =
  el_track :: "string option"
  el_slides :: "slide list"
  el_prevBtn :: bool
  el_nextBtn :: bool
  el_dotsContainer :: "nat option"
  el_dots :: "elem list"
  el_interval :: number

text \<open>
  A carousel set up by \<open>initSlider\<close>: the elements its closures hold and write
  (\<open>transform\<close> is the value \<^verbatim>\<open>track.style.transform\<close> reads; \<open>slides\<close> and \<open>dots\<close> are the
  two arrays),
  the listeners that depend on the markup (\<open>prevBtn\<close>, \<open>nextBtn\<close>: a click listener is
  attached; the \<open>click\<close> of each dot), and the closure's variables \<open>current\<close>, \<open>total\<close>,
  \<open>startX\<close>, \<open>interval\<close> and \<open>autoplay\<close>. The variable \<open>autoplay\<close> and the two hover listeners
  exist only when \<open>interval > 0\<close>: \<open>autoplay = None\<close> otherwise. \<open>timers\<close> are the handles of
  the running interval timers of this carousel and \<open>next_timer\<close> the handle that the next
  \<^verbatim>\<open>setInterval\<close> returns.
\<close>

record carousel =
  transform :: string
  slides :: "slide list"
  dots :: "dot list"
  prevBtn :: bool
  nextBtn :: bool
  tabindex :: string
  current :: int
  total :: int
  startX :: int
  interval :: number
  autoplay :: "nat option"
  timers :: "nat list"
  next_timer :: nat

section \<open>The slider\<close>

text \<open>
  \<^verbatim>\<open>current = (index + total) % total\<close>, then the three writes to the page: the track's
  transform, the class \<^verbatim>\<open>is-active\<close> of every dot, and \<^verbatim>\<open>aria-hidden\<close> and \<^verbatim>\<open>inert\<close> of
  every slide. (\<open>current\<close> is smaller than \<open>total\<close> in magnitude, so \<^verbatim>\<open>current * 100\<close> and the
  listeners' \<^verbatim>\<open>current + 1\<close> and \<^verbatim>\<open>current - 1\<close> are exact.) \<open>template n\<close> is the template
  literal \<^verbatim>\<open>translateX(-${n}%)\<close>.
\<close>

definition template :: "int \<Rightarrow> string" where
  "template n = ''translateX(-'' @ string_of_int n @ ''%)''"

definition goTo :: "int \<Rightarrow> carousel \<Rightarrow> carousel" where
  "goTo index s =
     (let cur = js_rem (add_length index (total s)) (total s) in
      s\<lparr>current := cur,
        transform := set_transform (template (cur * 100)) (transform s),
        dots := map (\<lambda>(i, d). d\<lparr>classList := toggle ''is-active'' (int i = cur) (classList d)\<rparr>)
                  (enumerate 0 (dots s)),
        slides := map (\<lambda>(i, sl). sl\<lparr>aria_hidden := Some (string_of_bool (int i \<noteq> cur)),
                                    inert := (int i \<noteq> cur)\<rparr>)
                    (enumerate 0 (slides s))\<rparr>)"

text \<open>The dot that the loop over the slides creates for slide \<open>i\<close>.\<close>

definition new_dot :: "nat \<Rightarrow> dot" where
  "new_dot i =
     \<lparr>classList = [''slider__dot''],
      aria_label = Some (''Go to slide '' @ string_of_int (int i + 1)),
      click = Some i\<rparr>"

definition markup_dot :: "elem \<Rightarrow> dot" where
  "markup_dot e = \<lparr>classList = classList e, aria_label = aria_label e, click = None\<rparr>"

text \<open>
  The array \<^verbatim>\<open>$$('.slider__dot', slider)\<close>, read after the loop that creates the dots: the
  dots of the markup in document order, with one new dot per slide appended to the
  container when there is a container.
\<close>

definition query_dots :: "slider_el \<Rightarrow> dot list" where
  "query_dots m =
     (case el_dotsContainer m of
        None \<Rightarrow> map markup_dot (el_dots m)
      | Some p \<Rightarrow> map markup_dot (take p (el_dots m))
                  @ map new_dot [0..<length (el_slides m)]
                  @ map markup_dot (drop p (el_dots m)))"

text \<open>
  \<open>initSlider\<close>. \<open>None\<close> is the \<^verbatim>\<open>return\<close> of the guard
  \<^verbatim>\<open>if (!track || slides.length === 0) return;\<close>, which stands after the five queries and
  before every statement that creates an element, attaches a listener, writes an attribute
  or declares state. Otherwise the result is the carousel after the closing \<^verbatim>\<open>goTo(0)\<close>;
  with \<open>interval > 0\<close> the first timer, of handle 0, is running.
\<close>

definition initSlider :: "slider_el \<Rightarrow> carousel option" where
  "initSlider m =
     (case el_track m of
        None \<Rightarrow> None
      | Some t \<Rightarrow>
          if length (el_slides m) = 0 then None
          else
            let iv = el_interval m;
                auto = positive iv
            in Some (goTo 0
                 \<lparr>transform = t,
                  slides = el_slides m,
                  dots = query_dots m,
                  prevBtn = el_prevBtn m,
                  nextBtn = el_nextBtn m,
                  tabindex = ''0'',
                  current = 0,
                  total = int (length (el_slides m)),
                  startX = 0,
                  interval = iv,
                  autoplay = (if auto then Some 0 else None),
                  timers = (if auto then [0] else []),
                  next_timer = (if auto then 1 else 0)\<rparr>))"

text \<open>\<open>Slider.init\<close>: every \<^verbatim>\<open>.slider\<close> of the page is set up on its own.\<close>

definition init :: "slider_el list \<Rightarrow> carousel option list" where
  "init page = map initSlider page"

subsection \<open>Events\<close>

text \<open>
  What can happen to a carousel after its set-up: a click on the previous or next button,
  a click on the dot at a position of the \<open>dots\<close> array, an interval timer firing, the
  pointer entering or leaving the root, a touch starting or ending at a horizontal
  coordinate of the track, and a key pressed while the root has the focus.
\<close>

datatype event =
    Click_prev
  | Click_next
  | Click_dot nat
  | Timer nat
  | Mouseenter
  | Mouseleave
  | Touchstart int
  | Touchend int
  | Keydown string

text \<open>The listener \<^verbatim>\<open>keydown\<close>: two \<^verbatim>\<open>if\<close> statements, one after the other.\<close>

definition keydown :: "string \<Rightarrow> carousel \<Rightarrow> carousel" where
  "keydown key s =
     (let s1 = (if key = ''ArrowRight'' then goTo (current s + 1) s else s)
      in if key = ''ArrowLeft'' then goTo (current s1 - 1) s1 else s1)"

text \<open>The listener \<^verbatim>\<open>touchend\<close>.\<close>

definition touchend :: "int \<Rightarrow> carousel \<Rightarrow> carousel" where
  "touchend x s =
     (let dx = x - startX s
      in if \<bar>dx\<bar> > 50 then goTo (if dx < 0 then current s + 1 else current s - 1) s else s)"

text \<open>
  An event runs the listener attached for it, if there is one. A button that the markup
  lacks has no listener (\<^verbatim>\<open>prevBtn?.addEventListener\<close>), a dot of the markup has none, a
  timer that was cleared does not fire, and the hover listeners exist only with autoplay.
\<close>

fun handle :: "event \<Rightarrow> carousel \<Rightarrow> carousel" where
  "handle Click_prev s = (if prevBtn s then goTo (current s - 1) s else s)"
| "handle Click_next s = (if nextBtn s then goTo (current s + 1) s else s)"
| "handle (Click_dot j) s =
     (if j < length (dots s)
      then (case click (dots s ! j) of Some i \<Rightarrow> goTo (int i) s | None \<Rightarrow> s)
      else s)"
| "handle (Timer h) s = (if h \<in> set (timers s) then goTo (current s + 1) s else s)"
| "handle Mouseenter s =
     (case autoplay s of
        None \<Rightarrow> s
      | Some h \<Rightarrow> s\<lparr>timers := removeAll h (timers s)\<rparr>)"
| "handle Mouseleave s =
     (case autoplay s of
        None \<Rightarrow> s
      | Some h \<Rightarrow> s\<lparr>autoplay := Some (next_timer s),
                     timers := timers s @ [next_timer s],
                     next_timer := Suc (next_timer s)\<rparr>)"
| "handle (Touchstart x) s = s\<lparr>startX := x\<rparr>"
| "handle (Touchend x) s = touchend x s"
| "handle (Keydown key) s = keydown key s"

text \<open>
  The states of the carousel of a root element \<open>m\<close>: the one \<open>initSlider\<close> leaves, and every
  state an event leads to from one of them.
\<close>

inductive reachable :: "slider_el \<Rightarrow> carousel \<Rightarrow> bool" for m :: slider_el where
  reachable_init: "initSlider m = Some s \<Longrightarrow> reachable m s"
| reachable_step: "reachable m s \<Longrightarrow> reachable m (handle e s)"

text \<open>
  The scenario of the specification: a track, three slides and no autoplay; here with both
  buttons and an empty container for the dots.
\<close>

definition three_slides :: slider_el where
  "three_slides =
     \<lparr>el_track = Some [],
      el_slides = replicate 3 \<lparr>aria_hidden = None, inert = False\<rparr>,
      el_prevBtn = True,
      el_nextBtn = True,
      el_dotsContainer = Some 0,
      el_dots = [],
      el_interval = Finite 0\<rparr>"

definition three_slides_start :: carousel where
  "three_slides_start = the (initSlider three_slides)"

text \<open>The same root element with autoplay every five seconds.\<close>

definition autoplay_slides :: slider_el where
  "autoplay_slides = three_slides\<lparr>el_interval := Finite 5000\<rparr>"

definition autoplay_slides_start :: carousel where
  "autoplay_slides_start = the (initSlider autoplay_slides)"

text \<open>The same root element without its track.\<close>

definition no_track :: slider_el where
  "no_track = three_slides\<lparr>el_track := None\<rparr>"

section \<open>Properties\<close>

subsection \<open>The remainder and the sum\<close>

lemma js_rem_nonneg: "0 \<le> a \<Longrightarrow> 0 < b \<Longrightarrow> js_rem a b = a mod b"
  by (cases "a = 0") (simp_all add: js_rem_def)

lemma js_rem_neg: "a < 0 \<Longrightarrow> 0 < b \<Longrightarrow> js_rem a b = - ((- a) mod b)"
  by (simp add: js_rem_def)

lemma js_rem_double:
  assumes "0 < b"
  shows "js_rem (js_rem i b + b) b = i mod b"
proof (cases "0 \<le> i")
  case True
  then have "js_rem i b = i mod b" using assms by (rule js_rem_nonneg)
  moreover have "0 \<le> i mod b + b" using assms by (simp add: add_nonneg_nonneg)
  ultimately show ?thesis using assms by (simp add: js_rem_nonneg)
next
  case False
  then have r: "js_rem i b = - ((- i) mod b)" using assms by (simp add: js_rem_neg)
  have "(- i) mod b < b" using assms by simp
  then have "0 \<le> - ((- i) mod b) + b" by simp
  then have "js_rem (- ((- i) mod b) + b) b = (- ((- i) mod b) + b) mod b"
    using assms by (rule js_rem_nonneg)
  also have "\<dots> = (- ((- i) mod b)) mod b" by simp
  also have "\<dots> = i mod b" by (simp add: mod_minus_eq)
  finally show ?thesis using r by simp
qed

lemma round_double_safe: "\<bar>n\<bar> \<le> 2 ^ 53 \<Longrightarrow> round_double n = n"
  by (simp add: round_double_def)

lemma round_double_nonneg:
  assumes "0 \<le> n"
  shows "0 \<le> round_double n"
proof -
  have q: "0 \<le> n div 2 ^ e" for e :: nat
    using assms by (simp add: pos_imp_zdiv_nonneg_iff)
  have "0 \<le> (n div 2 ^ e + 1) * 2 ^ e" "0 \<le> n div 2 ^ e * 2 ^ e" for e :: nat
    using q [of e] by simp_all
  then show ?thesis using assms by (simp add: round_double_def Let_def)
qed

lemma add_length_safe: "\<bar>i + t\<bar> \<le> 2 ^ 53 \<Longrightarrow> add_length i t = i + t"
  by (simp add: add_length_def round_double_safe)

lemma add_length_nonneg: "- t \<le> i \<Longrightarrow> 0 \<le> add_length i t"
  by (simp add: add_length_def round_double_nonneg)

text \<open>The indices that the listeners pass are added exactly.\<close>

lemma add_length_listener:
  assumes "- t \<le> i" and "i \<le> t"
  shows "add_length i t = i + t"
proof (cases "t < 2 ^ 32")
  case True
  then have "\<bar>i + t\<bar> \<le> 2 ^ 53" using assms by simp
  then show ?thesis by (rule add_length_safe)
next
  case False
  then show ?thesis by (simp add: add_length_def)
qed

lemma js_rem_listener:
  assumes "0 < t" and "- t \<le> i" and "i \<le> t"
  shows "js_rem (add_length i t) t = i mod t"
proof -
  have "js_rem (i + t) t = (i + t) mod t" using assms by (intro js_rem_nonneg) simp_all
  then show ?thesis using assms by (simp add: add_length_listener)
qed

lemma js_rem_range:
  assumes "0 < t" and "- t \<le> i"
  shows "0 \<le> js_rem (add_length i t) t \<and> js_rem (add_length i t) t < t"
  using assms add_length_nonneg [OF assms(2)] by (simp add: js_rem_nonneg)

subsection \<open>The transform\<close>

lemma digit_char_cases:
  assumes "d < 10"
  shows "is_digit (digit_char d) \<and> digit_val (digit_char d) = d"
proof -
  from assms have "d = 0 \<or> d = 1 \<or> d = 2 \<or> d = 3 \<or> d = 4 \<or> d = 5 \<or> d = 6 \<or> d = 7 \<or>
      d = 8 \<or> d = 9"
    by arith
  then show ?thesis
    by (elim disjE) (simp_all add: digit_char_def is_digit_def digit_val_def)
qed

lemma string_of_nat_digits:
  "string_of_nat n \<noteq> [] \<and> (\<forall>c \<in> set (string_of_nat n). is_digit c) \<and>
   foldl (\<lambda>a c. 10 * a + digit_val c) 0 (string_of_nat n) = n"
proof (induction n rule: string_of_nat.induct)
  case (1 n)
  show ?case
  proof (cases "n < 10")
    case True
    then show ?thesis
      using digit_char_cases [of n] by (simp add: string_of_nat.simps [of n])
  next
    case False
    have d: "is_digit (digit_char (n mod 10))" "digit_val (digit_char (n mod 10)) = n mod 10"
      using digit_char_cases [of "n mod 10"] by simp_all
    from False "1.IH" d show ?thesis
      by (simp add: string_of_nat.simps [of n])
  qed
qed

lemma percent_not_digit: "\<not> is_digit CHR ''%''" "\<not> is_digit CHR ''-''"
  by (simp_all add: is_digit_def)

lemma css_translateX_template:
  "css_translateX (template k) = (if 0 \<le> k then Some (- k) else None)"
proof (cases "0 \<le> k")
  case True
  let ?ds = "string_of_nat (nat k)"
  note d = string_of_nat_digits [of "nat k"]
  have tw: "takeWhile is_digit (?ds @ ''%)'') = ?ds"
    using d by (simp add: takeWhile_append2 percent_not_digit)
  have dw: "dropWhile is_digit (?ds @ ''%)'') = ''%)''"
    using d by (simp add: dropWhile_append2 percent_not_digit)
  show ?thesis
    using True d tw dw by (simp add: css_translateX_def template_def string_of_int_def Let_def)
next
  case False
  then show ?thesis
    by (simp add: css_translateX_def template_def string_of_int_def Let_def percent_not_digit)
qed

lemma set_transform_template:
  "set_transform (template k) old =
     (if 0 \<le> k then ''translateX('' @ string_of_int (- k) @ ''%)'' else old)"
  by (simp add: set_transform_def css_translateX_template)

subsection \<open>What \<open>goTo\<close> writes\<close>

lemma current_goTo [simp]: "current (goTo i s) = js_rem (add_length i (total s)) (total s)"
  by (simp add: goTo_def Let_def)

lemma total_goTo [simp]: "total (goTo i s) = total s"
  by (simp add: goTo_def Let_def)

lemma transform_goTo:
  "transform (goTo i s) =
     (if 0 \<le> current (goTo i s)
      then ''translateX('' @ string_of_int (- 100 * current (goTo i s)) @ ''%)''
      else transform s)"
  by (simp add: goTo_def Let_def set_transform_template mult.commute)

lemma length_slides_goTo [simp]: "length (slides (goTo i s)) = length (slides s)"
  by (simp add: goTo_def Let_def)

lemma length_dots_goTo [simp]: "length (dots (goTo i s)) = length (dots s)"
  by (simp add: goTo_def Let_def)

lemma nth_slides_goTo:
  "j < length (slides s) \<Longrightarrow>
   slides (goTo i s) ! j =
     \<lparr>aria_hidden = Some (string_of_bool (int j \<noteq> current (goTo i s))),
      inert = (int j \<noteq> current (goTo i s))\<rparr>"
  by (simp add: goTo_def Let_def nth_enumerate_eq)

lemma nth_dots_goTo:
  "j < length (dots s) \<Longrightarrow>
   dots (goTo i s) ! j =
     (dots s ! j)\<lparr>classList := toggle ''is-active'' (int j = current (goTo i s)) (classList (dots s ! j))\<rparr>"
  by (simp add: goTo_def Let_def nth_enumerate_eq)

lemma set_toggle: "set (toggle t b cl) = (if b then insert t (set cl) else set cl - {t})"
  by (auto simp: toggle_def)

lemma toggle_idem: "toggle t b (toggle t b cl) = toggle t b cl"
  by (simp add: toggle_def)

lemma others_goTo [simp]:
  "prevBtn (goTo i s) = prevBtn s" "nextBtn (goTo i s) = nextBtn s"
  "startX (goTo i s) = startX s" "timers (goTo i s) = timers s"
  "autoplay (goTo i s) = autoplay s" "next_timer (goTo i s) = next_timer s"
  "interval (goTo i s) = interval s" "tabindex (goTo i s) = tabindex s"
  by (simp_all add: goTo_def Let_def)

lemma more_goTo: "carousel.more (goTo i s) = carousel.more s"
  by (simp add: goTo_def Let_def)

lemma click_dots_goTo: "map click (dots (goTo i s)) = map click (dots s)"
  by (rule nth_equalityI) (simp_all add: nth_dots_goTo)

lemma dots_goTo_idem: "dots (goTo k (goTo k s)) = dots (goTo k s)"
  by (rule nth_equalityI) (simp_all add: nth_dots_goTo toggle_idem)

lemma slides_goTo_idem: "slides (goTo k (goTo k s)) = slides (goTo k s)"
  by (rule nth_equalityI) (simp_all add: nth_slides_goTo)

lemma goTo_idem: "goTo k (goTo k s) = goTo k s"
  by (rule carousel.equality)
     (simp_all add: dots_goTo_idem slides_goTo_idem transform_goTo more_goTo)

lemma base_dots_goTo:
  "map (\<lambda>d. set (classList d) - {''is-active''}) (dots (goTo i s)) =
   map (\<lambda>d. set (classList d) - {''is-active''}) (dots s)"
  by (rule nth_equalityI) (auto simp: nth_dots_goTo set_toggle)

lemma classes_dots_goTo:
  "j < length (dots s) \<Longrightarrow>
   set (classList (dots (goTo i s) ! j)) =
     (if int j = current (goTo i s) then {''is-active''} else {})
       \<union> (set (classList (dots s ! j)) - {''is-active''})"
  by (auto simp: nth_dots_goTo set_toggle)

subsection \<open>Listeners and reachable states\<close>

lemma keydown_cases:
  "keydown key s =
     (if key = ''ArrowRight'' then goTo (current s + 1) s
      else if key = ''ArrowLeft'' then goTo (current s - 1) s else s)"
  by (simp add: keydown_def Let_def)

lemma touchend_cases:
  "touchend x s =
     (if x - startX s < - 50 then goTo (current s + 1) s
      else if 50 < x - startX s then goTo (current s - 1) s else s)"
  by (simp add: touchend_def Let_def)

text \<open>Every event either navigates by one of the indices the listeners pass, or leaves
  the page and \<open>current\<close> as they are.\<close>

lemma handle_shape:
  "(\<exists>i. handle e s = goTo i s \<and>
        (i = current s + 1 \<or> i = current s - 1 \<or>
         (\<exists>j < length (dots s). click (dots s ! j) = Some (nat i) \<and> 0 \<le> i)))
   \<or> (current (handle e s) = current s \<and> total (handle e s) = total s \<and>
       transform (handle e s) = transform s \<and> slides (handle e s) = slides s \<and>
       dots (handle e s) = dots s)"
proof (cases e)
  case (Click_dot j)
  show ?thesis
  proof (cases "j < length (dots s)")
    case True
    then show ?thesis using Click_dot by (cases "click (dots s ! j)") auto
  next
    case False
    then show ?thesis using Click_dot by simp
  qed
next
  case Mouseenter
  then show ?thesis by (cases "autoplay s") simp_all
next
  case Mouseleave
  then show ?thesis by (cases "autoplay s") simp_all
next
  case (Touchend x)
  then show ?thesis by (auto simp: touchend_cases)
next
  case (Keydown key)
  then show ?thesis by (auto simp: keydown_cases)
qed auto

lemma click_query_dots:
  "d \<in> set (query_dots m) \<Longrightarrow> click d = Some i \<Longrightarrow> i < length (el_slides m)"
  by (auto simp: query_dots_def markup_dot_def new_dot_def split: option.splits)

lemma initSlider_Some:
  "initSlider m = Some s \<Longrightarrow>
   el_track m \<noteq> None \<and> el_slides m \<noteq> [] \<and>
   (\<exists>s0. s = goTo 0 s0 \<and> slides s0 = el_slides m \<and> dots s0 = query_dots m \<and>
         total s0 = int (length (el_slides m)) \<and> prevBtn s0 = el_prevBtn m \<and>
         nextBtn s0 = el_nextBtn m)"
  by (auto simp: initSlider_def Let_def split: option.splits if_splits)

lemma reachable_static:
  assumes "reachable m s"
  shows "el_slides m \<noteq> [] \<and> total s = int (length (el_slides m)) \<and>
         length (slides s) = length (el_slides m) \<and>
         map click (dots s) = map click (query_dots m) \<and>
         map (\<lambda>d. set (classList d) - {''is-active''}) (dots s) =
           map (\<lambda>d. set (classList d) - {''is-active''}) (query_dots m)"
  using assms
proof (induction rule: reachable.induct)
  case (reachable_init s)
  then show ?case
    using initSlider_Some [OF reachable_init]
    by (auto simp: click_dots_goTo base_dots_goTo)
next
  case (reachable_step s e)
  from handle_shape [of e s] consider
      (nav) i where "handle e s = goTo i s"
    | (same) "slides (handle e s) = slides s" "dots (handle e s) = dots s"
        "total (handle e s) = total s"
    by blast
  then show ?case
  proof cases
    case nav
    then show ?thesis using reachable_step.IH by (simp add: click_dots_goTo base_dots_goTo)
  next
    case same
    then show ?thesis using reachable_step.IH by simp
  qed
qed

lemma reachable_range:
  assumes "reachable m s"
  shows "0 \<le> current s \<and> current s < total s"
  using assms
proof (induction rule: reachable.induct)
  case (reachable_init s)
  then show ?case
    using initSlider_Some [OF reachable_init] js_rem_range [of "int (length (el_slides m))" 0]
    by auto
next
  case (reachable_step s e)
  have st: "el_slides m \<noteq> []" "total s = int (length (el_slides m))"
    "map click (dots s) = map click (query_dots m)"
    using reachable_static [OF reachable_step.hyps] by simp_all
  then have pos: "0 < total s" by simp
  from handle_shape [of e s] consider
      (nav) i where "handle e s = goTo i s" "- total s \<le> i"
    | (same) "current (handle e s) = current s" "total (handle e s) = total s"
  proof (elim disjE exE conjE)
    fix i assume "handle e s = goTo i s" "i = current s + 1"
    then show thesis using reachable_step.IH nav by simp
  next
    fix i assume "handle e s = goTo i s" "i = current s - 1"
    then show thesis using reachable_step.IH pos nav by simp
  next
    fix i j assume "handle e s = goTo i s" "0 \<le> i"
    then show thesis using pos nav by simp
  next
    assume "current (handle e s) = current s" "total (handle e s) = total s"
    then show thesis using same by simp
  qed
  then show ?case
  proof cases
    case nav
    then show ?thesis using pos js_rem_range [of "total s" i] by simp
  next
    case same
    then show ?thesis using reachable_step.IH by simp
  qed
qed


subsection \<open>The scenario, evaluated\<close>

lemma string_of_int_0: "string_of_int 0 = ''0''"
  by (simp add: string_of_int_def string_of_nat.simps digit_char_def)

lemma string_of_int_minus_200: "string_of_int (- 200) = ''-200''"
  by (simp add: string_of_int_def string_of_nat.simps digit_char_def)

lemma three_slides_start_eq:
  "three_slides_start =
     \<lparr>transform = ''translateX(0%)'',
      slides = [\<lparr>aria_hidden = Some ''false'', inert = False\<rparr>,
                \<lparr>aria_hidden = Some ''true'', inert = True\<rparr>,
                \<lparr>aria_hidden = Some ''true'', inert = True\<rparr>],
      dots = [\<lparr>classList = [''slider__dot'', ''is-active''],
                aria_label = Some ''Go to slide 1'', click = Some 0\<rparr>,
              \<lparr>classList = [''slider__dot''], aria_label = Some ''Go to slide 2'',
                click = Some 1\<rparr>,
              \<lparr>classList = [''slider__dot''], aria_label = Some ''Go to slide 3'',
                click = Some 2\<rparr>],
      prevBtn = True, nextBtn = True, tabindex = ''0'', current = 0, total = 3,
      startX = 0, interval = Finite 0, autoplay = None, timers = [], next_timer = 0\<rparr>"
  by (simp add: three_slides_start_def three_slides_def initSlider_def add_length_safe
      set_transform_template
      query_dots_def new_dot_def goTo_def js_rem_def string_of_int_def string_of_nat.simps
      digit_char_def string_of_bool_def toggle_def upt_rec numeral_3_eq_3)

lemma init_three_slides: "initSlider three_slides = Some three_slides_start"
  by (simp add: three_slides_start_def three_slides_def initSlider_def Let_def)

lemma reachable_three_slides_start: "reachable three_slides three_slides_start"
  by (rule reachable_init [OF init_three_slides])

lemma init_autoplay_slides:
  "initSlider autoplay_slides =
     Some (three_slides_start\<lparr>interval := Finite 5000, autoplay := Some 0, timers := [0],
                               next_timer := 1\<rparr>)"
  by (simp add: autoplay_slides_def three_slides_start_def three_slides_def initSlider_def
      Let_def goTo_def query_dots_def)

lemma autoplay_slides_start_eq:
  "autoplay_slides_start =
     three_slides_start\<lparr>interval := Finite 5000, autoplay := Some 0, timers := [0],
                          next_timer := 1\<rparr>"
  by (simp add: autoplay_slides_start_def init_autoplay_slides)

lemma reachable_autoplay_slides_start: "reachable autoplay_slides autoplay_slides_start"
  by (rule reachable_init) (simp add: init_autoplay_slides autoplay_slides_start_eq)

section \<open>The claims\<close>




text \<open>
  C2. In every state reachable from the initialisation of a root element by clicks on the
  buttons and dots, timer ticks, hover, touch and key events, \<open>0 \<le> current < total\<close> and
  \<open>total \<ge> 1\<close>; right after initialisation \<open>current = 0\<close>.
\<close>

theorem current_in_range:
  assumes "reachable m s"
  shows "1 \<le> total s \<and> 0 \<le> current s \<and> current s < total s \<and>
         (initSlider m = Some s \<longrightarrow> current s = 0)"
proof -
  have "initSlider m = Some s \<longrightarrow> current s = 0"
  proof
    assume i: "initSlider m = Some s"
    from initSlider_Some [OF i] show "current s = 0"
      using js_rem_listener [of "int (length (el_slides m))" 0] by auto
  qed
  then show ?thesis using reachable_range [OF assms] by simp
qed

text \<open>
  C2, at the three-slide scenario with autoplay: the timer fires, the pointer enters (the
  timer is cleared and no longer fires) and leaves (a new timer runs), then a dot, a key
  and a swipe.
\<close>

theorem current_in_range_witness:
  "reachable autoplay_slides
     (handle (Touchend 40) (handle (Touchstart 100) (handle (Keydown ''ArrowLeft'')
       (handle (Click_dot 0) (handle (Timer 1) (handle Mouseleave (handle (Timer 0)
         (handle Mouseenter (handle (Timer 0) autoplay_slides_start))))))))) \<and>
   current (handle (Timer 0) autoplay_slides_start) = 1 \<and>
   current (handle (Timer 0) (handle Mouseenter (handle (Timer 0) autoplay_slides_start))) = 1 \<and>
   current (handle (Touchend 40) (handle (Touchstart 100) (handle (Keydown ''ArrowLeft'')
       (handle (Click_dot 0) (handle (Timer 1) (handle Mouseleave (handle (Timer 0)
         (handle Mouseenter (handle (Timer 0) autoplay_slides_start))))))))) = 0 \<and>
   total (handle (Touchend 40) (handle (Touchstart 100) (handle (Keydown ''ArrowLeft'')
       (handle (Click_dot 0) (handle (Timer 1) (handle Mouseleave (handle (Timer 0)
         (handle Mouseenter (handle (Timer 0) autoplay_slides_start))))))))) = 3"
proof -
  let ?s = "handle (Touchend 40) (handle (Touchstart 100) (handle (Keydown ''ArrowLeft'')
       (handle (Click_dot 0) (handle (Timer 1) (handle Mouseleave (handle (Timer 0)
         (handle Mouseenter (handle (Timer 0) autoplay_slides_start))))))))"
  have r: "reachable autoplay_slides ?s"
    by (intro reachable_step reachable_autoplay_slides_start)
  have "current (handle (Timer 0) autoplay_slides_start) = 1"
    "current (handle (Timer 0) (handle Mouseenter (handle (Timer 0) autoplay_slides_start))) = 1"
    by (simp_all add: autoplay_slides_start_eq three_slides_start_eq js_rem_def add_length_safe)
  moreover have "current ?s = 0 \<and> total ?s = 3"
    by (simp add: autoplay_slides_start_eq three_slides_start_eq keydown_cases touchend_cases
        js_rem_def goTo_def Let_def toggle_def add_length_safe)
  ultimately show ?thesis using r current_in_range [OF r] by simp
qed

text \<open>
  C3. Right after initialisation \<open>current = 0\<close>, the track's transform reads
  \<^verbatim>\<open>translateX(0%)\<close>, slide 0 is the visible slide and every other slide is hidden and
  inert. In every reachable state, so after every navigation, the track's transform is
  the offset of \<open>- 100 * current\<close> percent; a \<open>goTo\<close> that leaves \<open>current\<close> at a slide position
  sets it so from any state.
\<close>

theorem initial_render:
  "(initSlider m = Some s \<longrightarrow>
      current s = 0 \<and> transform s = ''translateX(0%)'' \<and>
      slides s \<noteq> [] \<and>
      (\<forall>j < length (slides s).
         slides s ! j = \<lparr>aria_hidden = Some (if j = 0 then ''false'' else ''true''),
                          inert = (j \<noteq> 0)\<rparr>)) \<and>
   (reachable m s \<longrightarrow>
      transform s = ''translateX('' @ string_of_int (- 100 * current s) @ ''%)'') \<and>
   (0 \<le> current (goTo i s) \<longrightarrow>
      transform (goTo i s) =
        ''translateX('' @ string_of_int (- 100 * current (goTo i s)) @ ''%)'')"
proof (intro conjI impI)
  assume i: "initSlider m = Some s"
  from initSlider_Some [OF i] obtain s0 where
    s0: "s = goTo 0 s0" "slides s0 = el_slides m" "total s0 = int (length (el_slides m))"
      "el_slides m \<noteq> []"
    by blast
  then have c: "current s = 0" using js_rem_listener [of "total s0" 0] by simp
  then show "current s = 0" .
  show "transform s = ''translateX(0%)''"
    using c s0(1) transform_goTo [of 0 s0] by (simp add: string_of_int_0)
  have "length (slides s) = length (el_slides m)" using s0 by simp
  then show "slides s \<noteq> []" using s0(4) by auto
  show "\<forall>j < length (slides s).
         slides s ! j = \<lparr>aria_hidden = Some (if j = 0 then ''false'' else ''true''),
                          inert = (j \<noteq> 0)\<rparr>"
    using c s0(1) by (simp add: nth_slides_goTo string_of_bool_def)
next
  assume r: "reachable m s"
  then have "transform s = ''translateX('' @ string_of_int (- 100 * current s) @ ''%)'' \<and>
             0 \<le> current s"
  proof (induction rule: reachable.induct)
    case (reachable_init s)
    have "0 \<le> current s" using reachable_range [OF reachable.reachable_init [OF reachable_init]]
      by simp
    moreover from initSlider_Some [OF reachable_init] obtain s0 where "s = goTo 0 s0" by blast
    ultimately show ?case using transform_goTo [of 0 s0] by simp
  next
    case (reachable_step s e)
    have n: "0 \<le> current (handle e s)"
      using reachable_range [OF reachable.reachable_step [OF reachable_step.hyps]] by simp
    from handle_shape [of e s] consider
        (nav) i where "handle e s = goTo i s"
      | (same) "current (handle e s) = current s" "transform (handle e s) = transform s"
      by blast
    then show ?case
    proof cases
      case nav
      then show ?thesis using n transform_goTo [of i s] by simp
    next
      case same
      then show ?thesis using reachable_step.IH by simp
    qed
  qed
  then show "transform s = ''translateX('' @ string_of_int (- 100 * current s) @ ''%)''"
    by simp
next
  assume "0 \<le> current (goTo i s)"
  then show "transform (goTo i s) =
      ''translateX('' @ string_of_int (- 100 * current (goTo i s)) @ ''%)''"
    by (simp only: transform_goTo if_True)
qed

text \<open>C3, at the three-slide scenario, fresh and after one step back to slide 2.\<close>

theorem initial_render_witness:
  "initSlider three_slides = Some three_slides_start \<and>
   reachable three_slides (handle Click_prev three_slides_start) \<and>
   current three_slides_start = 0 \<and>
   transform three_slides_start = ''translateX(0%)'' \<and>
   slides three_slides_start ! 0 = \<lparr>aria_hidden = Some ''false'', inert = False\<rparr> \<and>
   current (handle Click_prev three_slides_start) = 2 \<and>
   transform (handle Click_prev three_slides_start) = ''translateX(-200%)''"
proof -
  have r: "reachable three_slides (handle Click_prev three_slides_start)"
    by (rule reachable_step [OF reachable_three_slides_start])
  have "slides three_slides_start ! 0 = \<lparr>aria_hidden = Some ''false'', inert = False\<rparr>"
    and c: "current (handle Click_prev three_slides_start) = 2"
    by (simp_all add: three_slides_start_eq js_rem_def add_length_safe)
  then show ?thesis
    using initial_render [of three_slides three_slides_start 0]
      initial_render [of three_slides "handle Click_prev three_slides_start" 0]
      init_three_slides reachable_three_slides_start r
    by (simp add: string_of_int_minus_200)
qed

text \<open>Advancing \<open>n\<close> times from a valid index adds \<open>n\<close> modulo \<open>total\<close>.\<close>

lemma next_iter:
  assumes "0 < total s" and "0 \<le> current s" and "current s < total s"
  shows "total (((\<lambda>s. goTo (current s + 1) s) ^^ n) s) = total s \<and>
         current (((\<lambda>s. goTo (current s + 1) s) ^^ n) s) = (current s + int n) mod total s"
proof (induction n)
  case 0
  then show ?case using assms by simp
next
  case (Suc n)
  let ?t = "((\<lambda>s. goTo (current s + 1) s) ^^ n) s"
  have t: "total ?t = total s" and c: "current ?t = (current s + int n) mod total s"
    using Suc.IH by simp_all
  have "0 \<le> current ?t" "current ?t < total s" using c assms(1) by simp_all
  then have "js_rem (add_length (current ?t + 1) (total s)) (total s) =
             (current ?t + 1) mod total s"
    using assms(1) by (intro js_rem_listener) simp_all
  also have "\<dots> = ((current s + int n) mod total s + 1) mod total s" using c by simp
  also have "\<dots> = (current s + int n + 1) mod total s" by (rule mod_add_left_eq)
  finally show ?case using t by (simp add: ac_simps)
qed

text \<open>
  C4. In every reachable state, advancing (\<^verbatim>\<open>goTo(current + 1)\<close>, the transition of the next
  button, the right-arrow key, a leftward swipe and the timer) \<open>total\<close> times brings
  \<open>current\<close> back to its value.
\<close>

theorem next_total_times:
  assumes "reachable m s"
  shows "current (((\<lambda>s. goTo (current s + 1) s) ^^ nat (total s)) s) = current s"
proof -
  have r: "0 \<le> current s" "current s < total s" using reachable_range [OF assms] by simp_all
  then have pos: "0 < total s" by simp
  from next_iter [OF pos r, of "nat (total s)"] show ?thesis using pos r by simp
qed

text \<open>C4, at the three-slide scenario: three advances from 0 return to 0.\<close>

theorem next_total_times_witness:
  "reachable three_slides three_slides_start \<and> current three_slides_start = 0 \<and>
   total three_slides_start = 3 \<and>
   current (goTo (current three_slides_start + 1) three_slides_start) = 1 \<and>
   current (((\<lambda>s. goTo (current s + 1) s) ^^ 3) three_slides_start) = 0"
proof -
  have "current three_slides_start = 0" "total three_slides_start = 3"
    "current (goTo (current three_slides_start + 1) three_slides_start) = 1"
    by (simp_all add: three_slides_start_eq js_rem_def add_length_safe)
  then show ?thesis
    using next_total_times [OF reachable_three_slides_start] reachable_three_slides_start
    by simp
qed

text \<open>
  C5. The click listener of the next button is \<^verbatim>\<open>goTo(current + 1)\<close> and that of the previous
  button is \<^verbatim>\<open>goTo(current - 1)\<close>; the right-arrow key does what the next button does and
  the left-arrow key what the previous button does; with three slides and \<open>current = 0\<close>,
  going to the previous slide sets \<open>current = 2\<close>.
\<close>

theorem next_previous_listeners:
  "(nextBtn s \<longrightarrow> handle Click_next s = goTo (current s + 1) s) \<and>
   (prevBtn s \<longrightarrow> handle Click_prev s = goTo (current s - 1) s) \<and>
   handle (Keydown ''ArrowRight'') s = goTo (current s + 1) s \<and>
   handle (Keydown ''ArrowLeft'') s = goTo (current s - 1) s \<and>
   (nextBtn s \<longrightarrow> handle (Keydown ''ArrowRight'') s = handle Click_next s) \<and>
   (prevBtn s \<longrightarrow> handle (Keydown ''ArrowLeft'') s = handle Click_prev s) \<and>
   (total s = 3 \<and> current s = 0 \<longrightarrow>
      current (handle (Keydown ''ArrowLeft'') s) = 2 \<and>
      (prevBtn s \<longrightarrow> current (handle Click_prev s) = 2))"
  by (simp add: keydown_cases js_rem_def add_length_safe)

text \<open>C5, at the three-slide scenario, which has both buttons.\<close>

theorem next_previous_listeners_witness:
  "nextBtn three_slides_start \<and> prevBtn three_slides_start \<and>
   total three_slides_start = 3 \<and> current three_slides_start = 0 \<and>
   current (handle Click_prev three_slides_start) = 2 \<and>
   current (handle (Keydown ''ArrowLeft'') three_slides_start) = 2 \<and>
   current (handle Click_next three_slides_start) = 1 \<and>
   current (handle (Keydown ''ArrowRight'') three_slides_start) = 1"
proof -
  have f: "nextBtn three_slides_start" "prevBtn three_slides_start"
    "total three_slides_start = 3" "current three_slides_start = 0"
    by (simp_all add: three_slides_start_eq)
  have "current (goTo (current three_slides_start + 1) three_slides_start) = 1"
    using f by (simp add: js_rem_def add_length_safe)
  then show ?thesis
    using next_previous_listeners [of three_slides_start] f by simp
qed


text \<open>An index that is a slide position is kept as it is.\<close>

lemma current_goTo_in_range:
  assumes "reachable m s" and "0 \<le> k" and "k < total s"
  shows "current (goTo k s) = k"
  using assms(2,3) js_rem_listener [of "total s" k] by simp

text \<open>
  C6. In every reachable state and for every slide position \<open>k\<close> of \<open>[0, total)\<close>, after
  \<open>goTo(k)\<close> the slide at position \<open>k\<close> exists, has \<^verbatim>\<open>aria-hidden="false"\<close> and is not inert,
  and every other slide has \<^verbatim>\<open>aria-hidden="true"\<close> and is inert.
\<close>

theorem goTo_slide_visibility:
  assumes "reachable m s" and "0 \<le> k" and "k < total s"
  shows "nat k < length (slides (goTo k s)) \<and>
         (\<forall>j < length (slides (goTo k s)).
            slides (goTo k s) ! j =
              \<lparr>aria_hidden = Some (if int j = k then ''false'' else ''true''),
               inert = (int j \<noteq> k)\<rparr>)"
proof -
  have len: "int (length (slides s)) = total s"
    using reachable_static [OF assms(1)] by simp
  have cur: "current (goTo k s) = k" using assms by (rule current_goTo_in_range)
  have "nat k < length (slides (goTo k s))" using len assms(2,3) by simp
  moreover have "slides (goTo k s) ! j =
      \<lparr>aria_hidden = Some (if int j = k then ''false'' else ''true''), inert = (int j \<noteq> k)\<rparr>"
    if "j < length (slides (goTo k s))" for j
    using that nth_slides_goTo [of j s k] cur by (simp add: string_of_bool_def)
  ultimately show ?thesis by blast
qed

text \<open>C6, at the three-slide scenario with \<open>k = 1\<close>.\<close>

theorem goTo_slide_visibility_witness:
  "reachable three_slides three_slides_start \<and> (0::int) \<le> 1 \<and> 1 < total three_slides_start \<and>
   length (slides (goTo 1 three_slides_start)) = 3 \<and>
   slides (goTo 1 three_slides_start) ! 0 = \<lparr>aria_hidden = Some ''true'', inert = True\<rparr> \<and>
   slides (goTo 1 three_slides_start) ! 1 = \<lparr>aria_hidden = Some ''false'', inert = False\<rparr> \<and>
   slides (goTo 1 three_slides_start) ! 2 = \<lparr>aria_hidden = Some ''true'', inert = True\<rparr>"
proof -
  have b: "(0::int) \<le> 1" "1 < total three_slides_start"
    by (simp_all add: three_slides_start_eq)
  have l: "length (slides (goTo 1 three_slides_start)) = 3"
    by (simp add: three_slides_start_eq)
  from goTo_slide_visibility [OF reachable_three_slides_start b]
  have "\<forall>j < 3. slides (goTo 1 three_slides_start) ! j =
      \<lparr>aria_hidden = Some (if int j = 1 then ''false'' else ''true''), inert = (int j \<noteq> 1)\<rparr>"
    using l by simp
  then have "slides (goTo 1 three_slides_start) ! 0 = \<lparr>aria_hidden = Some ''true'', inert = True\<rparr>"
    "slides (goTo 1 three_slides_start) ! 1 = \<lparr>aria_hidden = Some ''false'', inert = False\<rparr>"
    "slides (goTo 1 three_slides_start) ! 2 = \<lparr>aria_hidden = Some ''true'', inert = True\<rparr>"
    by simp_all
  then show ?thesis using reachable_three_slides_start b l by simp
qed

text \<open>The \<open>dots\<close> array when there is a container.\<close>

lemma length_query_dots:
  "el_dotsContainer m \<noteq> None \<Longrightarrow>
   length (query_dots m) = length (el_dots m) + length (el_slides m)"
  by (auto simp: query_dots_def)

lemma query_dots_created:
  "el_dotsContainer m \<noteq> None \<Longrightarrow> el_dots m = [] \<Longrightarrow>
   map click (query_dots m) = map Some [0..<length (el_slides m)]"
  by (auto simp: query_dots_def new_dot_def)

text \<open>
  C7. For a root element with a container for the dots, in every reachable state and for
  every slide position \<open>k\<close> of \<open>[0, total)\<close>, after \<open>goTo(k)\<close> the \<open>dots\<close> array has a position
  \<open>k\<close> and the class \<^verbatim>\<open>is-active\<close> is carried by the dot at position \<open>k\<close> and by no other dot.
  When the markup has no dots of its own, the array is the dots built one per slide, and
  the one at position \<open>k\<close> is the one whose click goes to slide \<open>k\<close>.
\<close>

theorem goTo_active_dot:
  assumes "reachable m s" and "el_dotsContainer m \<noteq> None" and "0 \<le> k" and "k < total s"
  shows "nat k < length (dots (goTo k s)) \<and>
         (\<forall>j < length (dots (goTo k s)).
            (''is-active'' \<in> set (classList (dots (goTo k s) ! j))) = (int j = k)) \<and>
         (el_dots m = [] \<longrightarrow>
            length (dots (goTo k s)) = nat (total s) \<and>
            click (dots (goTo k s) ! nat k) = Some (nat k))"
proof -
  have st: "total s = int (length (el_slides m))"
    "map click (dots s) = map click (query_dots m)"
    using reachable_static [OF assms(1)] by simp_all
  have cur: "current (goTo k s) = k" using assms(1,3,4) by (rule current_goTo_in_range)
  have "length (dots s) = length (query_dots m)"
    using st(2) by (rule map_eq_imp_length_eq)
  then have len: "length (dots s) = length (el_dots m) + length (el_slides m)"
    using assms(2) by (simp add: length_query_dots)
  then have a: "nat k < length (dots (goTo k s))" using st(1) assms(3,4) by simp
  have b: "(''is-active'' \<in> set (classList (dots (goTo k s) ! j))) = (int j = k)"
    if "j < length (dots (goTo k s))" for j
    using that cur by (simp add: classes_dots_goTo)
  have c: "length (dots (goTo k s)) = nat (total s) \<and>
           click (dots (goTo k s) ! nat k) = Some (nat k)" if e: "el_dots m = []"
  proof -
    have "map click (dots (goTo k s)) = map Some [0..<length (el_slides m)]"
      using st(2) assms(2) e by (simp add: click_dots_goTo query_dots_created)
    then have "map click (dots (goTo k s)) ! nat k = map Some [0..<length (el_slides m)] ! nat k"
      by simp
    then have "click (dots (goTo k s) ! nat k) = Some (nat k)"
      using a len e by simp
    then show ?thesis using len e st(1) by simp
  qed
  from a b c show ?thesis by blast
qed


text \<open>C7, at the three-slide scenario with \<open>k = 1\<close>.\<close>

theorem goTo_active_dot_witness:
  "reachable three_slides three_slides_start \<and> el_dotsContainer three_slides \<noteq> None \<and>
   el_dots three_slides = [] \<and> (0::int) \<le> 1 \<and> 1 < total three_slides_start \<and>
   length (dots (goTo 1 three_slides_start)) = 3 \<and>
   ''is-active'' \<notin> set (classList (dots (goTo 1 three_slides_start) ! 0)) \<and>
   ''is-active'' \<in> set (classList (dots (goTo 1 three_slides_start) ! 1)) \<and>
   ''is-active'' \<notin> set (classList (dots (goTo 1 three_slides_start) ! 2)) \<and>
   click (dots (goTo 1 three_slides_start) ! 1) = Some 1"
proof -
  have b: "(0::int) \<le> 1" "1 < total three_slides_start"
    by (simp_all add: three_slides_start_eq)
  have c: "el_dotsContainer three_slides \<noteq> None" "el_dots three_slides = []"
    by (simp_all add: three_slides_def)
  have t: "total three_slides_start = 3" by (simp add: three_slides_start_eq)
  from goTo_active_dot [OF reachable_three_slides_start c(1) b]
  show ?thesis using reachable_three_slides_start b c t by simp
qed

text \<open>
  C8. A touch that starts at \<open>x0\<close> and ends at \<open>x1\<close> runs \<^verbatim>\<open>goTo(current + 1)\<close> once when it
  moved left by more than 50, \<^verbatim>\<open>goTo(current - 1)\<close> once when it moved right by more than
  50, and changes nothing otherwise; 51 to the left advances, 49 to the left does nothing.
\<close>

theorem swipe_threshold:
  "(x1 - x0 < - 50 \<longrightarrow>
      handle (Touchend x1) (handle (Touchstart x0) s) =
        goTo (current s + 1) (handle (Touchstart x0) s)) \<and>
   (50 < x1 - x0 \<longrightarrow>
      handle (Touchend x1) (handle (Touchstart x0) s) =
        goTo (current s - 1) (handle (Touchstart x0) s)) \<and>
   (\<bar>x1 - x0\<bar> \<le> 50 \<longrightarrow>
      handle (Touchend x1) (handle (Touchstart x0) s) = handle (Touchstart x0) s) \<and>
   current (handle (Touchstart x0) s) = current s \<and>
   handle (Touchend (x0 - 51)) (handle (Touchstart x0) s) =
     goTo (current s + 1) (handle (Touchstart x0) s) \<and>
   handle (Touchend (x0 - 49)) (handle (Touchstart x0) s) = handle (Touchstart x0) s"
  by (simp add: touchend_cases)

text \<open>C8, at the three-slide scenario: swipes of 51, 49, 50 to the left or right.\<close>

theorem swipe_threshold_witness:
  "current (handle (Touchend 149) (handle (Touchstart 200) three_slides_start)) = 1 \<and>
   current (handle (Touchend 151) (handle (Touchstart 200) three_slides_start)) = 0 \<and>
   current (handle (Touchend 251) (handle (Touchstart 200) three_slides_start)) = 2 \<and>
   current (handle (Touchend 250) (handle (Touchstart 200) three_slides_start)) = 0 \<and>
   current (handle (Touchend 150) (handle (Touchstart 200) three_slides_start)) = 0"
proof -
  have f: "current three_slides_start = 0" "total three_slides_start = 3"
    by (simp_all add: three_slides_start_eq)
  have g: "current (goTo 1 (handle (Touchstart 200) three_slides_start)) = 1"
    "current (goTo (- 1) (handle (Touchstart 200) three_slides_start)) = 2"
    using f by (simp_all add: js_rem_def add_length_safe)
  show ?thesis
    using swipe_threshold [of 149 200 three_slides_start]
      swipe_threshold [of 151 200 three_slides_start]
      swipe_threshold [of 251 200 three_slides_start]
      swipe_threshold [of 250 200 three_slides_start]
      swipe_threshold [of 150 200 three_slides_start] f g
    by simp
qed

text \<open>
  C9. For a root element without a track or without slides, \<open>initSlider\<close> takes the
  \<^verbatim>\<open>return\<close> of its guard: it raises nothing and sets nothing up (no dot, no listener, no
  state), and \<open>Slider.init\<close> sets up the root elements before and after it as it would
  without it. The guard is the only way for \<open>initSlider\<close> to set nothing up.
\<close>

theorem init_skips_incomplete:
  "(el_track m = None \<or> el_slides m = [] \<longrightarrow>
      initSlider m = None \<and>
      init (before @ m # after) = init before @ None # init after) \<and>
   (initSlider m = None \<longrightarrow> el_track m = None \<or> el_slides m = [])"
  by (auto simp: initSlider_def init_def Let_def split: option.splits)

text \<open>C9, on a page of three root elements, the second without a track.\<close>

theorem init_skips_incomplete_witness:
  "el_track no_track = None \<and> initSlider no_track = None \<and>
   initSlider (three_slides\<lparr>el_slides := []\<rparr>) = None \<and>
   init [three_slides, no_track, three_slides] =
     [Some three_slides_start, None, Some three_slides_start]"
proof -
  have a: "el_track no_track = None" by (simp add: no_track_def)
  have b: "el_slides (three_slides\<lparr>el_slides := []\<rparr>) = []" by simp
  have c: "init [three_slides] = [Some three_slides_start]"
    by (simp add: init_def init_three_slides)
  show ?thesis
    using init_skips_incomplete [of no_track "[three_slides]" "[three_slides]"]
      init_skips_incomplete [of "three_slides\<lparr>el_slides := []\<rparr>" "[]" "[]"] a b c
    by simp
qed




end
